theory Spec2Isabelle
  imports Main
begin

section \<open>JavaScript values and strings\<close>

text \<open>
  The version fields of the script hold a string, \<open>null\<close> or \<open>undefined\<close>.
  \<open>truthy\<close> is JavaScript's boolean coercion on these values (the empty string is
  falsy), \<open>js_or\<close> is the operator \<open>||\<close>, and \<open>to_string\<close> is the
  conversion that string concatenation applies to an operand.
\<close>

datatype jsstr = Undefined | Null | Str string

fun truthy :: "jsstr \<Rightarrow> bool" where
  "truthy (Str s) = (s \<noteq> [])"
| "truthy Undefined = False"
| "truthy Null = False"

definition js_or :: "jsstr \<Rightarrow> jsstr \<Rightarrow> jsstr" where
  "js_or a b = (if truthy a then a else b)"

fun to_string :: "jsstr \<Rightarrow> string" where
  "to_string (Str s) = s"
| "to_string Undefined = ''undefined''"
| "to_string Null = ''null''"

text \<open>
  \<open>split_js c s\<close> is \<open>s.split(c)\<close> for a one-character separator: the pieces
  between the separators, in order, never an empty array (so the last case of the
  definition does not occur). \<open>index_js xs i\<close> is \<open>xs[i]\<close> on the resulting array:
  \<open>undefined\<close> out of range.
\<close>

fun split_js :: "char \<Rightarrow> string \<Rightarrow> string list" where
  "split_js c [] = [[]]"
| "split_js c (x # xs) =
     (if x = c then [] # split_js c xs
      else (case split_js c xs of
              w # ws \<Rightarrow> (x # w) # ws
            | [] \<Rightarrow> [[x]]))"

definition index_js :: "string list \<Rightarrow> nat \<Rightarrow> jsstr" where
  "index_js xs i = (if i < length xs then Str (xs ! i) else Undefined)"

text \<open>\<open>s.indexOf(c) > -1\<close>.\<close>

definition contains_js :: "char \<Rightarrow> string \<Rightarrow> bool" where
  "contains_js c s = (c \<in> set s)"

section \<open>Plugin declarations and plugin records\<close>

text \<open>
  An entry of \<open>cordovaPlugins\<close> is a string \<open>name@version\<close> or an object with the
  fields \<open>locator\<close>, \<open>id\<close> and \<open>version\<close>, each of which may be missing.
\<close>

record pluginObject =
  locator :: jsstr
  id' :: jsstr
  version :: jsstr

datatype pluginDecl = StringDecl string | ObjectDecl pluginObject

record pluginInfo =
  pluginName :: string
  pluginFolder :: string
  expectedVersion :: jsstr
  installedVersionJson :: jsstr
  installedVersionXml :: jsstr
  newestVersion :: jsstr

datatype error =
    InvalidVersion string
  | InvalidRange string
  | ParseFailure string
  | LookupFailure string
  | TypeError string

section \<open>The local inventory reader\<close>

text \<open>
  The plugins directory is a parameter. Every file the script touches is
  \<open>plugins/<folder>/plugin.xml\<close> or \<open>plugins/<folder>/package.json\<close>, so the
  directory is given by what \<open>fs.existsSync\<close> answers for the two files of a folder,
  what \<open>require(file).version\<close> yields for the manifest and what
  \<open>$('plugin').attr('version')\<close> yields for the descriptor; either read may raise.
\<close>

record disk =
  existsXml :: "string \<Rightarrow> bool"
  existsJson :: "string \<Rightarrow> bool"
  requireVersion :: "string \<Rightarrow> error + jsstr"
  xmlVersionAttr :: "string \<Rightarrow> error + jsstr"

definition getVersionFromJSON :: "disk \<Rightarrow> string \<Rightarrow> error + jsstr" where
  "getVersionFromJSON d folder =
     (if existsJson d folder then requireVersion d folder else Inr Null)"

definition getVersionFromXML :: "disk \<Rightarrow> string \<Rightarrow> error + jsstr" where
  "getVersionFromXML d folder =
     (if existsXml d folder then xmlVersionAttr d folder else Inr Null)"

text \<open>Lines 79 to 91: the text that is split into name and version.\<close>

fun pluginNameAndVersion :: "pluginDecl \<Rightarrow> string" where
  "pluginNameAndVersion (ObjectDecl obj) =
     (if truthy (locator obj) \<and> contains_js (CHR ''@'') (to_string (locator obj))
      then to_string (locator obj)
      else to_string (id' obj) @ ''@'' @ to_string (js_or (version obj) (Str [])))"
| "pluginNameAndVersion (StringDecl s) = s"

text \<open>\<open>pluginInfo.id\<close>: a string has no such property.\<close>

fun declId :: "pluginDecl \<Rightarrow> jsstr" where
  "declId (ObjectDecl obj) = id' obj"
| "declId (StringDecl s) = Undefined"

definition parsedName :: "pluginDecl \<Rightarrow> string" where
  "parsedName decl = hd (split_js (CHR ''@'') (pluginNameAndVersion decl))"

definition parsedExpectedVersion :: "pluginDecl \<Rightarrow> jsstr" where
  "parsedExpectedVersion decl = index_js (split_js (CHR ''@'') (pluginNameAndVersion decl)) 1"

definition folderOf :: "pluginDecl \<Rightarrow> string" where
  "folderOf decl =
     (if truthy (declId decl) then to_string (declId decl) else parsedName decl)"

text \<open>The body of the \<open>forEach\<close> callback of \<open>readPluginInfoFromDisk\<close>.\<close>

definition readPlugin :: "disk \<Rightarrow> pluginDecl \<Rightarrow> error + pluginInfo" where
  "readPlugin d decl =
     (let currentPluginInfo =
            \<lparr> pluginName = parsedName decl,
              pluginFolder = folderOf decl,
              expectedVersion = parsedExpectedVersion decl,
              installedVersionJson = Null,
              installedVersionXml = Null,
              newestVersion = Null \<rparr>
      in if existsXml d (folderOf decl) then
           (case getVersionFromJSON d (folderOf decl) of
              Inl e \<Rightarrow> Inl e
            | Inr j \<Rightarrow>
                (case getVersionFromXML d (folderOf decl) of
                   Inl e \<Rightarrow> Inl e
                 | Inr x \<Rightarrow>
                     Inr (currentPluginInfo\<lparr> installedVersionJson := j,
                                            installedVersionXml := x \<rparr>)))
         else Inr currentPluginInfo)"

fun forEachDecl :: "disk \<Rightarrow> pluginDecl list \<Rightarrow> pluginInfo list \<Rightarrow> error + pluginInfo list" where
  "forEachDecl d [] allPluginsInfo = Inr allPluginsInfo"
| "forEachDecl d (decl # rest) allPluginsInfo =
     (case readPlugin d decl of
        Inl e \<Rightarrow> Inl e
      | Inr p \<Rightarrow> forEachDecl d rest (allPluginsInfo @ [p]))"

definition readPluginInfoFromDisk :: "disk \<Rightarrow> pluginDecl list \<Rightarrow> error + pluginInfo list" where
  "readPluginInfoFromDisk d cordovaPlugins = forEachDecl d cordovaPlugins []"

section \<open>The reconciler\<close>

text \<open>
  The \<open>semver\<close> package is a parameter: \<open>gt\<close> and \<open>lt\<close> compare two versions,
  \<open>gtr\<close> and \<open>ltr\<close> say whether a version lies above or below every version a
  range admits. Each of them raises on a string it cannot parse.
\<close>

record semver =
  gt :: "string \<Rightarrow> string \<Rightarrow> error + bool"
  lt :: "string \<Rightarrow> string \<Rightarrow> error + bool"
  gtr :: "string \<Rightarrow> string \<Rightarrow> error + bool"
  ltr :: "string \<Rightarrow> string \<Rightarrow> error + bool"

text \<open>
  A string as it reaches the terminal: as it is, or wrapped by \<open>cli-color\<close>
  (\<open>clc.red.bold\<close>, \<open>clc.green.bold\<close>, \<open>clc.yellow.bold\<close>, \<open>clc.yellow\<close>).
\<close>

datatype emphasis = RedBold | GreenBold | YellowBold | Yellow

datatype styled = Plain string | Emph emphasis string


text \<open>
  The local variables \<open>installed\<close>, \<open>newest\<close> and \<open>expected\<close> hold a field's
  value until one of the comparisons replaces it by a coloured string. \<open>or_dash v\<close> is
  \<open>v || '-'\<close>; a coloured string carries its escape codes and is never empty.
\<close>

datatype cellval = Raw jsstr | Colored emphasis string

fun or_dash :: "cellval \<Rightarrow> styled" where
  "or_dash (Raw v) = Plain (if truthy v then to_string v else ''-'')"
| "or_dash (Colored e s) = Emph e s"

type_synonym table = "styled list list"

definition warning1 :: "string \<Rightarrow> jsstr \<Rightarrow> jsstr \<Rightarrow> string" where
  "warning1 name jsonVersion xmlVersion =
     name @ '': version in package.json('' @ to_string jsonVersion @
     '') does not match plugin.xml('' @ to_string xmlVersion @
     ''), assuming version in package.json.''"

definition warning2 :: "string \<Rightarrow> string \<Rightarrow> string" where
  "warning2 name folder =
     name @ '': plugin npm name does not match its id from plugin.xml ('' @ folder @ '')!''"

text \<open>Lines 169 to 176: the colour of the newest version.\<close>

definition colorNewest :: "semver \<Rightarrow> jsstr \<Rightarrow> jsstr \<Rightarrow> error + cellval" where
  "colorNewest sv newest installed =
     (if truthy newest \<and> truthy installed then
        (case gt sv (to_string newest) (to_string installed) of
           Inl e \<Rightarrow> Inl e
         | Inr True \<Rightarrow> Inr (Colored GreenBold (to_string newest))
         | Inr False \<Rightarrow>
             (case lt sv (to_string newest) (to_string installed) of
                Inl e \<Rightarrow> Inl e
              | Inr True \<Rightarrow> Inr (Colored RedBold (to_string newest))
              | Inr False \<Rightarrow> Inr (Raw newest)))
      else Inr (Raw newest))"

text \<open>Lines 178 to 184: the colours of the installed and the expected version.\<close>

definition colorRange :: "semver \<Rightarrow> jsstr \<Rightarrow> jsstr \<Rightarrow> error + (cellval \<times> cellval)" where
  "colorRange sv expected installed =
     (if truthy expected \<and> truthy installed then
        (case gtr sv (to_string installed) (to_string expected) of
           Inl e \<Rightarrow> Inl e
         | Inr True \<Rightarrow> Inr (Raw expected, Colored RedBold (to_string installed))
         | Inr False \<Rightarrow>
             (case ltr sv (to_string installed) (to_string expected) of
                Inl e \<Rightarrow> Inl e
              | Inr True \<Rightarrow> Inr (Colored RedBold (to_string expected), Raw installed)
              | Inr False \<Rightarrow> Inr (Raw expected, Raw installed)))
      else Inr (Raw expected, Raw installed))"

text \<open>
  The body of the \<open>forEach\<close> callback of \<open>postProcessPluginsInfo\<close>, on the state
  it updates: the table and the array \<open>warnings\<close>.
\<close>

definition processPlugin ::
  "semver \<Rightarrow> pluginInfo \<Rightarrow> table \<times> string list \<Rightarrow> error + table \<times> string list" where
  "processPlugin sv currPluginInfo st =
     (let table = fst st;
          warnings = snd st;
          jsonVersion = installedVersionJson currPluginInfo;
          xmlVersion = installedVersionXml currPluginInfo;
          warnings =
            (if truthy jsonVersion \<and> truthy xmlVersion \<and> jsonVersion \<noteq> xmlVersion
             then warnings @ [warning1 (pluginName currPluginInfo) jsonVersion xmlVersion]
             else warnings);
          warnings =
            (if pluginName currPluginInfo \<noteq> pluginFolder currPluginInfo
             then warnings @ [warning2 (pluginName currPluginInfo) (pluginFolder currPluginInfo)]
             else warnings);
          name =
            (if pluginName currPluginInfo \<noteq> pluginFolder currPluginInfo
             then pluginName currPluginInfo @ '' ('' @ pluginFolder currPluginInfo @ '')''
             else pluginName currPluginInfo);
          installed = js_or (installedVersionJson currPluginInfo) (installedVersionXml currPluginInfo);
          newest = newestVersion currPluginInfo;
          expected = expectedVersion currPluginInfo
      in case colorNewest sv newest installed of
           Inl e \<Rightarrow> Inl e
         | Inr newest' \<Rightarrow>
             (case colorRange sv expected installed of
                Inl e \<Rightarrow> Inl e
              | Inr (expected', installed') \<Rightarrow>
                  Inr (table @ [[Plain name, or_dash expected', or_dash installed', or_dash newest']],
                       warnings)))"

fun forEachPlugin ::
  "semver \<Rightarrow> pluginInfo list \<Rightarrow> table \<times> string list \<Rightarrow> error + table \<times> string list" where
  "forEachPlugin sv [] st = Inr st"
| "forEachPlugin sv (p # ps) st =
     (case processPlugin sv p st of
        Inl e \<Rightarrow> Inl e
      | Inr st' \<Rightarrow> forEachPlugin sv ps st')"

text \<open>The five notices printed after the warnings (lines 200 to 206).\<close>

definition notices :: "styled list" where
  "notices =
     [Plain ''\<newline>Note: if a plugin installed version was not detected, its id might differ from npm package name.'',
      Plain ''In this case, you need to specify the plugin entry in package.json as\<newline>'',
      Plain ''  {locator: \"npmname@version\", id: \"plugin.id.from.configxml\"}'',
      Plain ''\<newline>for the plugin to be properly detected.'',
      Emph Yellow ''\<newline>Consider sending a PR to the plugin's maintainer to fix any issues.'']"

text \<open>
  \<open>postProcessPluginsInfo\<close> returns what it has written to the console together with
  the table, or with the error that a comparison raised: the empty line of line 131 is
  written before the loop, the warnings and the notices after it.
\<close>

definition postProcessPluginsInfo ::
  "semver \<Rightarrow> pluginInfo list \<Rightarrow> styled list \<times> (error + table)" where
  "postProcessPluginsInfo sv allPluginsInfo =
     (case forEachPlugin sv allPluginsInfo ([], []) of
        Inl e \<Rightarrow> ([Plain []], Inl e)
      | Inr (table, warnings) \<Rightarrow>
          ([Plain []] @ map (Emph YellowBold) warnings @ notices, Inr table))"

section \<open>The registry lookup and the pipeline\<close>

text \<open>
  The registry is a parameter: what \<open>npmview\<close> answers for a package name, a version
  or a failure. \<open>promiseAll\<close> is \<open>Promise.all\<close> on lookups that have settled: the
  array of the values, in the order of the promises, when every lookup succeeded, and a
  rejection otherwise. Which rejection is reported when several lookups fail depends on
  the order in which they settle; the model reports the first in declaration order, and
  no statement below depends on which one it is. The registry answers the same for the
  same name throughout a run. What the script writes to the diagnostic stream (the
  progress dots) is not modelled.
\<close>

type_synonym registry = "string \<Rightarrow> error + jsstr"

fun promiseAll :: "(error + 'a) list \<Rightarrow> error + 'a list" where
  "promiseAll [] = Inr []"
| "promiseAll (r # rs) =
     (case r of
        Inl e \<Rightarrow> Inl e
      | Inr v \<Rightarrow> (case promiseAll rs of Inl e \<Rightarrow> Inl e | Inr vs \<Rightarrow> Inr (v # vs)))"

definition getNewestVersionsInfoFromNpm :: "registry \<Rightarrow> pluginInfo list \<Rightarrow> error + jsstr list" where
  "getNewestVersionsInfoFromNpm reg allPluginsInfo =
     promiseAll (map (\<lambda>pluginEntry. reg (pluginName pluginEntry)) allPluginsInfo)"

text \<open>
  Lines 233 to 235: \<open>allPluginsInfo[idx].newestVersion = newestVersionsArr[idx]\<close> for
  every index of \<open>newestVersionsArr\<close>. Writing a property of an element that does not
  exist raises.
\<close>

definition setNewest :: "jsstr list \<Rightarrow> nat \<Rightarrow> pluginInfo list \<Rightarrow> error + pluginInfo list" where
  "setNewest newestVersionsArr idx allPluginsInfo =
     (if idx < length allPluginsInfo
      then Inr (allPluginsInfo[idx := (allPluginsInfo ! idx)\<lparr> newestVersion := newestVersionsArr ! idx \<rparr>])
      else Inl (TypeError ''Cannot set property newestVersion of undefined''))"

fun augmentFrom :: "jsstr list \<Rightarrow> nat list \<Rightarrow> pluginInfo list \<Rightarrow> error + pluginInfo list" where
  "augmentFrom newestVersionsArr [] allPluginsInfo = Inr allPluginsInfo"
| "augmentFrom newestVersionsArr (idx # rest) allPluginsInfo =
     (case setNewest newestVersionsArr idx allPluginsInfo of
        Inl e \<Rightarrow> Inl e
      | Inr infos \<Rightarrow> augmentFrom newestVersionsArr rest infos)"

definition augment :: "jsstr list \<Rightarrow> pluginInfo list \<Rightarrow> error + pluginInfo list" where
  "augment newestVersionsArr allPluginsInfo =
     augmentFrom newestVersionsArr [0..<length newestVersionsArr] allPluginsInfo"

text \<open>
  What \<open>main\<close> writes to the console: a line, the error in bold red, the error's stack
  trace, or the rendered table.
\<close>

datatype consoleItem = Log styled | LogError error | LogStack error | LogTable table

fun isTable :: "consoleItem \<Rightarrow> bool" where
  "isTable (LogTable t) = True"
| "isTable (Log s) = False"
| "isTable (LogError e) = False"
| "isTable (LogStack e) = False"

text \<open>The \<open>catch\<close> handler of lines 243 to 247.\<close>

definition onRejected :: "error \<Rightarrow> consoleItem list" where
  "onRejected err = [Log (Plain []), LogError err, LogStack err]"

text \<open>
  The two last \<open>then\<close> steps: the reconciler on the augmented records, then the table
  on the console; an error of the reconciler reaches the \<open>catch\<close> handler.
\<close>

definition report :: "semver \<Rightarrow> pluginInfo list \<Rightarrow> consoleItem list" where
  "report sv allPluginsInfo =
     (case postProcessPluginsInfo sv allPluginsInfo of
        (out, Inl err) \<Rightarrow> map Log out @ onRejected err
      | (out, Inr table) \<Rightarrow> map Log out @ [Log (Plain []), LogTable table])"

text \<open>
  \<open>main\<close>: an error while reading the disk is not caught (it happens before the promise
  chain); every later error reaches the \<open>catch\<close> handler.
\<close>

definition main :: "disk \<Rightarrow> registry \<Rightarrow> semver \<Rightarrow> pluginDecl list \<Rightarrow> error + consoleItem list" where
  "main d reg sv cordovaPlugins =
     (case readPluginInfoFromDisk d cordovaPlugins of
        Inl e \<Rightarrow> Inl e
      | Inr allPluginsInfo \<Rightarrow>
          Inr (case getNewestVersionsInfoFromNpm reg allPluginsInfo of
                 Inl err \<Rightarrow> onRejected err
               | Inr newestVersionsArr \<Rightarrow>
                   (case augment newestVersionsArr allPluginsInfo of
                      Inl err \<Rightarrow> onRejected err
                    | Inr infos \<Rightarrow> report sv infos)))"

section \<open>A reference instance of the semver package\<close>

text \<open>
  The general statements below hold for every \<open>semver\<close>; the examples need a
  concrete one. \<open>semverRef\<close> follows the package's documentation on version strings
  of the strict grammar \<open>[v]MAJOR.MINOR.PATCH[-PRERELEASE][+BUILD]\<close> (within the
  package's limits on length and on the size of a number), with the precedence of
  Semantic Versioning 2.0.0, and on ranges that pin one exact version, the form a
  declaration \<open>name@1.2.3\<close> gives. A version string outside the grammar raises, as in
  the package. A range written with operators is outside this instance: it is reported
  as \<open>InvalidRange\<close> here, where the package would parse it, and no statement below
  applies the instance to such a range.
\<close>

definition isDigit :: "char \<Rightarrow> bool" where
  "isDigit c = (48 \<le> (of_char c :: nat) \<and> (of_char c :: nat) \<le> 57)"

definition isIdChar :: "char \<Rightarrow> bool" where
  "isIdChar c =
     (let n = (of_char c :: nat)
      in (48 \<le> n \<and> n \<le> 57) \<or> (65 \<le> n \<and> n \<le> 90) \<or> (97 \<le> n \<and> n \<le> 122) \<or> n = 45)"

definition isSpace :: "char \<Rightarrow> bool" where
  "isSpace c = ((of_char c :: nat) = 32 \<or> (9 \<le> (of_char c :: nat) \<and> (of_char c :: nat) \<le> 13))"

definition trim :: "string \<Rightarrow> string" where
  "trim s = rev (dropWhile isSpace (rev (dropWhile isSpace s)))"

text \<open>A numeric identifier: \<open>0|[1-9]\d*\<close>.\<close>

definition numericId :: "string \<Rightarrow> bool" where
  "numericId s = (s \<noteq> [] \<and> list_all isDigit s \<and> (length s = 1 \<or> hd s \<noteq> CHR ''0''))"

text \<open>
  A prerelease identifier: \<open>0|[1-9]\d*|\d*[a-zA-Z-][a-zA-Z0-9-]*\<close>. A build identifier:
  \<open>[0-9A-Za-z-]+\<close>.
\<close>

definition prereleaseId :: "string \<Rightarrow> bool" where
  "prereleaseId s =
     (s \<noteq> [] \<and> list_all isIdChar s \<and> (if list_all isDigit s then numericId s else True))"

definition buildId :: "string \<Rightarrow> bool" where
  "buildId s = (s \<noteq> [] \<and> list_all isIdChar s)"

definition toNat :: "string \<Rightarrow> nat" where
  "toNat s = foldl (\<lambda>n c. 10 * n + ((of_char c :: nat) - 48)) 0 s"

datatype preId = NumericId nat | AlphaId string

definition toIdentifier :: "string \<Rightarrow> preId" where
  "toIdentifier s = (if list_all isDigit s then NumericId (toNat s) else AlphaId s)"

record parsedVersion =
  major :: nat
  minor :: nat
  patch :: nat
  prerelease :: "preId list"

definition parseVersion :: "string \<Rightarrow> parsedVersion option" where
  "parseVersion raw =
     (let t = trim raw;
          s = (if t \<noteq> [] \<and> hd t = CHR ''v'' then tl t else t);
          beforeBuild = takeWhile (\<lambda>c. c \<noteq> CHR ''+'') s;
          fromBuild = dropWhile (\<lambda>c. c \<noteq> CHR ''+'') s;
          mainPart = takeWhile (\<lambda>c. c \<noteq> CHR ''-'') beforeBuild;
          fromPre = dropWhile (\<lambda>c. c \<noteq> CHR ''-'') beforeBuild;
          nums = split_js (CHR ''.'') mainPart;
          pre = (if fromPre = [] then [] else split_js (CHR ''.'') (tl fromPre));
          build = (if fromBuild = [] then [] else split_js (CHR ''.'') (tl fromBuild))
      in if length nums = 3 \<and> list_all numericId nums \<and> list_all prereleaseId pre
            \<and> list_all buildId build
         then Some \<lparr> major = toNat (nums ! 0), minor = toNat (nums ! 1), patch = toNat (nums ! 2),
                      prerelease = map toIdentifier pre \<rparr>
         else None)"

text \<open>
  Precedence: numbers compare as numbers, a number is below a word, words compare by
  their characters; the result is negative, zero or positive.
\<close>

fun compareStrings :: "string \<Rightarrow> string \<Rightarrow> int" where
  "compareStrings [] [] = 0"
| "compareStrings [] (y # ys) = -1"
| "compareStrings (x # xs) [] = 1"
| "compareStrings (x # xs) (y # ys) =
     (if (of_char x :: nat) < of_char y then -1
      else if (of_char y :: nat) < of_char x then 1
      else compareStrings xs ys)"

fun compareNat :: "nat \<Rightarrow> nat \<Rightarrow> int" where
  "compareNat a b = (if a < b then -1 else if b < a then 1 else 0)"

fun compareIdentifiers :: "preId \<Rightarrow> preId \<Rightarrow> int" where
  "compareIdentifiers (NumericId a) (NumericId b) = compareNat a b"
| "compareIdentifiers (NumericId a) (AlphaId b) = -1"
| "compareIdentifiers (AlphaId a) (NumericId b) = 1"
| "compareIdentifiers (AlphaId a) (AlphaId b) = compareStrings a b"

fun comparePreLists :: "preId list \<Rightarrow> preId list \<Rightarrow> int" where
  "comparePreLists [] [] = 0"
| "comparePreLists [] (y # ys) = -1"
| "comparePreLists (x # xs) [] = 1"
| "comparePreLists (x # xs) (y # ys) =
     (if compareIdentifiers x y = 0 then comparePreLists xs ys else compareIdentifiers x y)"

text \<open>A version without prerelease tags is above the same version with them.\<close>

definition comparePre :: "preId list \<Rightarrow> preId list \<Rightarrow> int" where
  "comparePre a b =
     (if a = [] \<and> b \<noteq> [] then 1
      else if a \<noteq> [] \<and> b = [] then -1
      else comparePreLists a b)"

definition compareParsed :: "parsedVersion \<Rightarrow> parsedVersion \<Rightarrow> int" where
  "compareParsed a b =
     (if compareNat (major a) (major b) \<noteq> 0 then compareNat (major a) (major b)
      else if compareNat (minor a) (minor b) \<noteq> 0 then compareNat (minor a) (minor b)
      else if compareNat (patch a) (patch b) \<noteq> 0 then compareNat (patch a) (patch b)
      else comparePre (prerelease a) (prerelease b))"

text \<open>\<open>semver.compare(a, b)\<close>: \<open>a\<close> is parsed first.\<close>

definition compareRef :: "string \<Rightarrow> string \<Rightarrow> error + int" where
  "compareRef a b =
     (case parseVersion a of
        None \<Rightarrow> Inl (InvalidVersion a)
      | Some va \<Rightarrow>
          (case parseVersion b of
             None \<Rightarrow> Inl (InvalidVersion b)
           | Some vb \<Rightarrow> Inr (compareParsed va vb)))"

text \<open>
  \<open>semver.outside(version, range, hilo)\<close> on a range that is one exact version: the
  version is outside on the high side when it is above that version, on the low side when
  it is below.
\<close>

definition outsideRef :: "bool \<Rightarrow> string \<Rightarrow> string \<Rightarrow> error + bool" where
  "outsideRef high v r =
     (case parseVersion v of
        None \<Rightarrow> Inl (InvalidVersion v)
      | Some pv \<Rightarrow>
          (case parseVersion r of
             None \<Rightarrow> Inl (InvalidRange r)
           | Some pr \<Rightarrow> Inr (if high then 0 < compareParsed pv pr else compareParsed pv pr < 0)))"

definition semverRef :: semver where
  "semverRef =
     \<lparr> gt = (\<lambda>a b. map_sum id (\<lambda>c. 0 < c) (compareRef a b)),
       lt = (\<lambda>a b. map_sum id (\<lambda>c. c < 0) (compareRef a b)),
       gtr = outsideRef True,
       ltr = outsideRef False \<rparr>"

section \<open>Notions used in the statements\<close>

text \<open>
  The declaration text before its first \<open>@\<close>, the text after its first \<open>@\<close>
  (absent when there is none), and the text between its first \<open>@\<close> and the next
  one (or the end).
\<close>

definition beforeFirstAt :: "string \<Rightarrow> string" where
  "beforeFirstAt s = takeWhile (\<lambda>c. c \<noteq> CHR ''@'') s"

definition afterFirstAt :: "string \<Rightarrow> jsstr" where
  "afterFirstAt s =
     (if CHR ''@'' \<in> set s then Str (tl (dropWhile (\<lambda>c. c \<noteq> CHR ''@'') s)) else Undefined)"

definition betweenAts :: "string \<Rightarrow> jsstr" where
  "betweenAts s =
     (if CHR ''@'' \<in> set s
      then Str (takeWhile (\<lambda>c. c \<noteq> CHR ''@'') (tl (dropWhile (\<lambda>c. c \<noteq> CHR ''@'') s)))
      else Undefined)"

text \<open>
  The resolved installed version of a record, the two mismatches of a record, the
  warnings they give and the name shown in the table.
\<close>

definition installedOf :: "pluginInfo \<Rightarrow> jsstr" where
  "installedOf p = js_or (installedVersionJson p) (installedVersionXml p)"

definition versionMismatch :: "pluginInfo \<Rightarrow> bool" where
  "versionMismatch p =
     (truthy (installedVersionJson p) \<and> truthy (installedVersionXml p)
      \<and> installedVersionJson p \<noteq> installedVersionXml p)"

definition nameMismatch :: "pluginInfo \<Rightarrow> bool" where
  "nameMismatch p = (pluginName p \<noteq> pluginFolder p)"

definition versionWarning :: "pluginInfo \<Rightarrow> string" where
  "versionWarning p = warning1 (pluginName p) (installedVersionJson p) (installedVersionXml p)"

definition nameWarning :: "pluginInfo \<Rightarrow> string" where
  "nameWarning p = warning2 (pluginName p) (pluginFolder p)"

definition warningsOf :: "pluginInfo \<Rightarrow> string list" where
  "warningsOf p =
     (if versionMismatch p then [versionWarning p] else []) @
     (if nameMismatch p then [nameWarning p] else [])"

definition displayName :: "pluginInfo \<Rightarrow> string" where
  "displayName p =
     (if nameMismatch p then pluginName p @ '' ('' @ pluginFolder p @ '')'' else pluginName p)"

text \<open>Two plugins directories hold the same two files under a folder.\<close>

definition sameFolder :: "disk \<Rightarrow> disk \<Rightarrow> string \<Rightarrow> bool" where
  "sameFolder d d' folder =
     (existsXml d folder = existsXml d' folder \<and> existsJson d folder = existsJson d' folder \<and>
      requireVersion d folder = requireVersion d' folder \<and>
      xmlVersionAttr d folder = xmlVersionAttr d' folder)"

text \<open>The columns of a row of the table.\<close>

definition nameCell :: "styled list \<Rightarrow> styled" where
  "nameCell row = row ! 0"


definition installedCell :: "styled list \<Rightarrow> styled" where
  "installedCell row = row ! 2"

definition newestCell :: "styled list \<Rightarrow> styled" where
  "newestCell row = row ! 3"


text \<open>
  The comparisons the reconciler asks of the package for one record all answer: the
  second of a pair is only asked when the first answered no.
\<close>

definition answers :: "(error + bool) \<Rightarrow> (error + bool) \<Rightarrow> bool" where
  "answers first second = (first = Inr True \<or> (first = Inr False \<and> \<not> isl second))"

definition comparable :: "semver \<Rightarrow> pluginInfo \<Rightarrow> bool" where
  "comparable sv p =
     ((if truthy (newestVersion p) \<and> truthy (installedOf p)
       then answers (gt sv (to_string (newestVersion p)) (to_string (installedOf p)))
                    (lt sv (to_string (newestVersion p)) (to_string (installedOf p)))
       else True) \<and>
      (if truthy (expectedVersion p) \<and> truthy (installedOf p)
       then answers (gtr sv (to_string (installedOf p)) (to_string (expectedVersion p)))
                    (ltr sv (to_string (installedOf p)) (to_string (expectedVersion p)))
       else True))"

text \<open>
  Semantic-version precedence (Semantic Versioning 2.0.0, item 11) between two version
  strings of the strict grammar: \<open>precedes a b\<close> says that \<open>a\<close> is below \<open>b\<close>.
  \<open>followsPrecedence sv a b\<close> says that both strings are versions and that the
  package's \<open>gt\<close> and \<open>lt\<close> answer for them by this precedence, as the semver
  package does on versions within its limits.
\<close>

definition precedes :: "string \<Rightarrow> string \<Rightarrow> bool" where
  "precedes a b =
     (case parseVersion a of
        None \<Rightarrow> False
      | Some va \<Rightarrow>
          (case parseVersion b of
             None \<Rightarrow> False
           | Some vb \<Rightarrow> compareParsed va vb < 0))"

definition followsPrecedence :: "semver \<Rightarrow> string \<Rightarrow> string \<Rightarrow> bool" where
  "followsPrecedence sv a b =
     (parseVersion a \<noteq> None \<and> parseVersion b \<noteq> None \<and>
      gt sv a b = Inr (precedes b a) \<and> lt sv a b = Inr (precedes a b))"

text \<open>
  The error the reconciler meets first. For one record it asks \<open>gt\<close>, then \<open>lt\<close>
  when \<open>gt\<close> answered no, then \<open>gtr\<close>, then \<open>ltr\<close> when \<open>gtr\<close> answered no,
  each pair only when both of its versions are present; for a sequence of records it
  goes through the records in order.
\<close>

definition raised :: "(error + bool) \<Rightarrow> (error + bool) \<Rightarrow> error option" where
  "raised first second =
     (case first of
        Inl e \<Rightarrow> Some e
      | Inr True \<Rightarrow> None
      | Inr False \<Rightarrow> (case second of Inl e \<Rightarrow> Some e | Inr b \<Rightarrow> None))"

definition comparisonError :: "semver \<Rightarrow> pluginInfo \<Rightarrow> error option" where
  "comparisonError sv p =
     (case (if truthy (newestVersion p) \<and> truthy (installedOf p)
            then raised (gt sv (to_string (newestVersion p)) (to_string (installedOf p)))
                        (lt sv (to_string (newestVersion p)) (to_string (installedOf p)))
            else None) of
        Some e \<Rightarrow> Some e
      | None \<Rightarrow>
          (if truthy (expectedVersion p) \<and> truthy (installedOf p)
           then raised (gtr sv (to_string (installedOf p)) (to_string (expectedVersion p)))
                       (ltr sv (to_string (installedOf p)) (to_string (expectedVersion p)))
           else None))"

fun firstComparisonError :: "semver \<Rightarrow> pluginInfo list \<Rightarrow> error option" where
  "firstComparisonError sv [] = None"
| "firstComparisonError sv (p # ps) =
     (case comparisonError sv p of
        Some e \<Rightarrow> Some e
      | None \<Rightarrow> firstComparisonError sv ps)"

section \<open>A worked example\<close>

text \<open>
  Two declarations, \<open>foo@1.0.0\<close> and \<open>{locator: "bar@2.0.0", id: "bar-id"}\<close>. On
  disk, \<open>plugins/foo\<close> holds version \<open>1.0.0\<close> in both files, and
  \<open>plugins/bar-id\<close> holds \<open>2.5.0\<close> in its manifest and \<open>2.0.0\<close> in its
  descriptor. The registry knows \<open>foo\<close> at \<open>1.2.0\<close> and \<open>bar\<close> at \<open>2.5.0\<close>.
\<close>

definition examplePlugins :: "pluginDecl list" where
  "examplePlugins =
     [StringDecl ''foo@1.0.0'',
      ObjectDecl \<lparr> locator = Str ''bar@2.0.0'', id' = Str ''bar-id'', version = Undefined \<rparr>]"

definition exampleDisk :: disk where
  "exampleDisk =
     \<lparr> existsXml = (\<lambda>folder. folder = ''foo'' \<or> folder = ''bar-id''),
       existsJson = (\<lambda>folder. folder = ''foo'' \<or> folder = ''bar-id''),
       requireVersion =
         (\<lambda>folder. if folder = ''foo'' then Inr (Str ''1.0.0'')
                    else if folder = ''bar-id'' then Inr (Str ''2.5.0'')
                    else Inl (ParseFailure folder)),
       xmlVersionAttr =
         (\<lambda>folder. if folder = ''foo'' then Inr (Str ''1.0.0'')
                    else if folder = ''bar-id'' then Inr (Str ''2.0.0'')
                    else Inr Undefined) \<rparr>"

definition exampleRegistry :: registry where
  "exampleRegistry name =
     (if name = ''foo'' then Inr (Str ''1.2.0'')
      else if name = ''bar'' then Inr (Str ''2.5.0'')
      else Inl (LookupFailure name))"

definition exampleFoo :: pluginInfo where
  "exampleFoo =
     \<lparr> pluginName = ''foo'', pluginFolder = ''foo'', expectedVersion = Str ''1.0.0'',
       installedVersionJson = Str ''1.0.0'', installedVersionXml = Str ''1.0.0'',
       newestVersion = Str ''1.2.0'' \<rparr>"

definition exampleBar :: pluginInfo where
  "exampleBar =
     \<lparr> pluginName = ''bar'', pluginFolder = ''bar-id'', expectedVersion = Str ''2.0.0'',
       installedVersionJson = Str ''2.5.0'', installedVersionXml = Str ''2.0.0'',
       newestVersion = Str ''2.5.0'' \<rparr>"



definition olderNewest :: pluginInfo where
  "olderNewest =
     \<lparr> pluginName = ''foo'', pluginFolder = ''foo'', expectedVersion = Undefined,
       installedVersionJson = Str ''10.0.0'', installedVersionXml = Str ''10.0.0'',
       newestVersion = Str ''2.0.0'' \<rparr>"



definition barObject :: pluginObject where
  "barObject = \<lparr> locator = Str ''bar@2.0.0'', id' = Str ''bar-id'', version = Undefined \<rparr>"

definition scopedObject :: pluginObject where
  "scopedObject =
     \<lparr> locator = Str ''@scope/cordova-plugin-foo@2.1.0'', id' = Str ''cordova-plugin-foo'',
       version = Undefined \<rparr>"

definition otherDisk :: disk where
  "otherDisk =
     \<lparr> existsXml = (\<lambda>folder. folder = ''bar'' \<or> folder = ''bar-id''),
       existsJson = (\<lambda>folder. folder = ''bar'' \<or> folder = ''bar-id''),
       requireVersion =
         (\<lambda>folder. if folder = ''bar-id'' then Inr (Str ''2.5.0'') else Inr (Str ''0.0.1'')),
       xmlVersionAttr =
         (\<lambda>folder. if folder = ''bar-id'' then Inr (Str ''2.0.0'') else Inr (Str ''0.0.1'')) \<rparr>"

text \<open>
  A record whose installed version has two components only, a plugins directory that
  holds such a version for \<open>foo\<close>, and a registry that does not know \<open>bar\<close>.
\<close>

definition twoPartVersion :: pluginInfo where
  "twoPartVersion =
     \<lparr> pluginName = ''foo'', pluginFolder = ''foo'', expectedVersion = Undefined,
       installedVersionJson = Str ''1.0'', installedVersionXml = Str ''1.0'',
       newestVersion = Str ''1.2.0'' \<rparr>"

definition staleDisk :: disk where
  "staleDisk =
     \<lparr> existsXml = (\<lambda>folder. folder = ''foo''),
       existsJson = (\<lambda>folder. folder = ''foo''),
       requireVersion = (\<lambda>folder. Inr (Str ''1.0'')),
       xmlVersionAttr = (\<lambda>folder. Inr (Str ''1.0'')) \<rparr>"

definition failingRegistry :: registry where
  "failingRegistry name =
     (if name = ''foo'' then Inr (Str ''1.2.0'') else Inl (LookupFailure name))"

section \<open>Splitting a declaration\<close>

lemma split_js_nonempty: "split_js c s \<noteq> []"
  by (induction s) (auto split: list.splits)

lemma hd_split_js: "hd (split_js c s) = takeWhile (\<lambda>x. x \<noteq> c) s"
  by (induction s) (auto split: list.splits simp: split_js_nonempty)

lemma tl_split_js:
  "tl (split_js c s) = (if c \<in> set s then split_js c (tl (dropWhile (\<lambda>x. x \<noteq> c) s)) else [])"
  by (induction s) (auto split: list.splits simp: split_js_nonempty)

lemma index_js_1: "index_js (w # ws) 1 = (if ws = [] then Undefined else Str (hd ws))"
  by (cases ws) (simp_all add: index_js_def)

lemma second_split_js:
  "index_js (split_js c s) 1 =
     (if c \<in> set s then Str (takeWhile (\<lambda>x. x \<noteq> c) (tl (dropWhile (\<lambda>x. x \<noteq> c) s)))
      else Undefined)"
proof -
  obtain w ws where sp: "split_js c s = w # ws"
    using split_js_nonempty [of c s] by (cases "split_js c s") auto
  then have ws: "ws = tl (split_js c s)" by simp
  show ?thesis
    unfolding sp index_js_1 unfolding ws tl_split_js
    by (simp add: split_js_nonempty hd_split_js)
qed

lemma parsedName_eq: "parsedName decl = beforeFirstAt (pluginNameAndVersion decl)"
  by (simp add: parsedName_def beforeFirstAt_def hd_split_js)

lemma parsedExpectedVersion_eq:
  "parsedExpectedVersion decl = betweenAts (pluginNameAndVersion decl)"
  by (simp only: parsedExpectedVersion_def betweenAts_def second_split_js)

lemma between_is_after:
  "CHR ''@'' \<notin> set (tl (dropWhile (\<lambda>c. c \<noteq> CHR ''@'') s)) \<Longrightarrow> betweenAts s = afterFirstAt s"
  by (auto simp: betweenAts_def afterFirstAt_def)

text \<open>
  Claim C4, as amended. For every declaration of the bare-string form, the parsed
  display name is the text before the first \<open>@\<close>, and the expected version is the text
  between the first \<open>@\<close> and the next one (or the end of the string), absent when the
  declaration has no \<open>@\<close>. When nothing after the first \<open>@\<close> is an \<open>@\<close>, that is
  the whole text after the first \<open>@\<close>.
\<close>

theorem string_declaration_split:
  "parsedName (StringDecl s) = beforeFirstAt s \<and>
   parsedExpectedVersion (StringDecl s) = betweenAts s \<and>
   (CHR ''@'' \<notin> set (tl (dropWhile (\<lambda>c. c \<noteq> CHR ''@'') s)) \<longrightarrow>
      parsedExpectedVersion (StringDecl s) = afterFirstAt s)"
  by (simp add: parsedName_eq parsedExpectedVersion_eq between_is_after)

theorem string_declaration_split_witness:
  "parsedName (StringDecl ''cordova-plugin-calendar@4.5.1'') = ''cordova-plugin-calendar'' \<and>
   parsedExpectedVersion (StringDecl ''cordova-plugin-calendar@4.5.1'') = Str ''4.5.1'' \<and>
   afterFirstAt ''cordova-plugin-calendar@4.5.1'' = Str ''4.5.1'' \<and>
   parsedExpectedVersion (StringDecl ''cordova-plugin-calendar'') = Undefined"
  using string_declaration_split [of "''cordova-plugin-calendar@4.5.1''"]
        string_declaration_split [of "''cordova-plugin-calendar''"]
  by (simp add: beforeFirstAt_def betweenAts_def afterFirstAt_def)

text \<open>
  Claim C4 as stated fails on a declaration with a second \<open>@\<close>, such as a scoped
  package name: the expected version stops at the second \<open>@\<close>, and is not the text
  after the first one.
\<close>

theorem string_declaration_two_ats:
  "parsedExpectedVersion (StringDecl ''@scope/plugin@1.0.0'') = Str ''scope/plugin'' \<and>
   afterFirstAt ''@scope/plugin@1.0.0'' = Str ''scope/plugin@1.0.0'' \<and>
   parsedExpectedVersion (StringDecl ''@scope/plugin@1.0.0'') \<noteq> afterFirstAt ''@scope/plugin@1.0.0''"
  by (simp add: parsedExpectedVersion_def afterFirstAt_def index_js_def)

lemma takeWhile_append_sep: "c \<notin> set n \<Longrightarrow> takeWhile (\<lambda>x. x \<noteq> c) (n @ c # r) = n"
  by (induction n) auto



lemma locator_wins:
  "truthy (locator obj) \<and> contains_js (CHR ''@'') (to_string (locator obj)) \<Longrightarrow>
     pluginNameAndVersion (ObjectDecl (obj\<lparr> id' := i, version := v \<rparr>)) = to_string (locator obj) \<and>
     pluginNameAndVersion (ObjectDecl obj) = to_string (locator obj)"
  by simp

section \<open>Reading one declaration\<close>

lemma readPlugin_expected:
  "readPlugin d decl = Inr p \<Longrightarrow>
     pluginName p = parsedName decl \<and> pluginFolder p = folderOf decl \<and>
     expectedVersion p = parsedExpectedVersion decl \<and> newestVersion p = Null"
  by (auto simp: readPlugin_def Let_def split: if_splits sum.splits)

lemma folderOf_id: "truthy (declId decl) \<Longrightarrow> folderOf decl = to_string (declId decl)"
  by (simp add: folderOf_def)

lemma readPlugin_same_folder:
  assumes "sameFolder d d' (folderOf decl)"
  shows "readPlugin d decl = readPlugin d' decl"
proof -
  from assms have a: "existsXml d (folderOf decl) = existsXml d' (folderOf decl)"
    "getVersionFromJSON d (folderOf decl) = getVersionFromJSON d' (folderOf decl)"
    "getVersionFromXML d (folderOf decl) = getVersionFromXML d' (folderOf decl)"
    by (simp_all add: sameFolder_def getVersionFromJSON_def getVersionFromXML_def)
  show ?thesis
    unfolding readPlugin_def a by (rule refl)
qed

lemma readPlugin_no_descriptor:
  "\<not> existsXml d (folderOf decl) \<Longrightarrow>
     readPlugin d decl =
       Inr \<lparr> pluginName = parsedName decl, pluginFolder = folderOf decl,
             expectedVersion = parsedExpectedVersion decl, installedVersionJson = Null,
             installedVersionXml = Null, newestVersion = Null \<rparr>"
  by (simp add: readPlugin_def)

text \<open>
  Claim C5, as amended. For every structured declaration whose locator contains an
  \<open>@\<close>, the parsed name is the locator's text before its first \<open>@\<close> and the
  parsed version is the text between its first \<open>@\<close> and the next one (or the end),
  whatever the fields \<open>id\<close> and \<open>version\<close> hold. For every declaration that
  supplies a non-empty \<open>id\<close>, the folder is that \<open>id\<close>, the record keeps the parsed
  name as its display name, and the files read are those of that folder: two plugins
  directories that agree on it give the same record.
\<close>

theorem object_declaration_split:
  "(truthy (locator obj) \<and> contains_js (CHR ''@'') (to_string (locator obj)) \<longrightarrow>
      parsedName (ObjectDecl obj) = beforeFirstAt (to_string (locator obj)) \<and>
      parsedExpectedVersion (ObjectDecl obj) = betweenAts (to_string (locator obj)) \<and>
      parsedName (ObjectDecl (obj\<lparr> id' := i, version := v \<rparr>)) = parsedName (ObjectDecl obj) \<and>
      parsedExpectedVersion (ObjectDecl (obj\<lparr> id' := i, version := v \<rparr>)) =
        parsedExpectedVersion (ObjectDecl obj)) \<and>
   (truthy (declId decl) \<longrightarrow>
      folderOf decl = to_string (declId decl) \<and>
      (readPlugin d decl = Inr p \<longrightarrow>
         pluginFolder p = to_string (declId decl) \<and> pluginName p = parsedName decl) \<and>
      (sameFolder d d' (to_string (declId decl)) \<longrightarrow> readPlugin d decl = readPlugin d' decl))"
proof -
  have 1: "truthy (locator obj) \<and> contains_js (CHR ''@'') (to_string (locator obj)) \<longrightarrow>
      parsedName (ObjectDecl obj) = beforeFirstAt (to_string (locator obj)) \<and>
      parsedExpectedVersion (ObjectDecl obj) = betweenAts (to_string (locator obj)) \<and>
      parsedName (ObjectDecl (obj\<lparr> id' := i, version := v \<rparr>)) = parsedName (ObjectDecl obj) \<and>
      parsedExpectedVersion (ObjectDecl (obj\<lparr> id' := i, version := v \<rparr>)) =
        parsedExpectedVersion (ObjectDecl obj)"
    using locator_wins [of obj i v]
    by (simp only: parsedName_eq parsedExpectedVersion_eq) simp
  have 2: "truthy (declId decl) \<longrightarrow>
      folderOf decl = to_string (declId decl) \<and>
      (readPlugin d decl = Inr p \<longrightarrow>
         pluginFolder p = to_string (declId decl) \<and> pluginName p = parsedName decl) \<and>
      (sameFolder d d' (to_string (declId decl)) \<longrightarrow> readPlugin d decl = readPlugin d' decl)"
    using readPlugin_expected [of d decl p] readPlugin_same_folder [of d d' decl]
    by (auto simp: folderOf_id)
  show ?thesis using 1 2 by blast
qed

theorem object_declaration_split_witness:
  "truthy (locator barObject) \<and> contains_js (CHR ''@'') (to_string (locator barObject)) \<and>
   truthy (declId (ObjectDecl barObject)) \<and>
   parsedName (ObjectDecl barObject) = ''bar'' \<and>
   parsedExpectedVersion (ObjectDecl barObject) = Str ''2.0.0'' \<and>
   parsedName (ObjectDecl (barObject\<lparr> id' := Str ''other'', version := Str ''9.9.9'' \<rparr>)) = ''bar'' \<and>
   parsedExpectedVersion (ObjectDecl (barObject\<lparr> id' := Str ''other'', version := Str ''9.9.9'' \<rparr>)) =
     Str ''2.0.0'' \<and>
   folderOf (ObjectDecl barObject) = ''bar-id'' \<and>
   readPlugin exampleDisk (ObjectDecl barObject) = Inr (exampleBar\<lparr> newestVersion := Null \<rparr>) \<and>
   sameFolder exampleDisk otherDisk ''bar-id'' \<and>
   readPlugin otherDisk (ObjectDecl barObject) = Inr (exampleBar\<lparr> newestVersion := Null \<rparr>)"
proof -
  have h1: "truthy (locator barObject) \<and> contains_js (CHR ''@'') (to_string (locator barObject))"
    by (simp add: barObject_def contains_js_def)
  have h2: "truthy (declId (ObjectDecl barObject))"
    by (simp add: barObject_def)
  have i: "to_string (declId (ObjectDecl barObject)) = ''bar-id''"
    by (simp add: barObject_def)
  have l: "to_string (locator barObject) = ''bar@2.0.0''"
    by (simp add: barObject_def)
  have r: "readPlugin exampleDisk (ObjectDecl barObject) = Inr (exampleBar\<lparr> newestVersion := Null \<rparr>)"
    by code_simp
  have s: "sameFolder exampleDisk otherDisk ''bar-id''"
    by code_simp
  have b: "beforeFirstAt ''bar@2.0.0'' = ''bar''" "betweenAts ''bar@2.0.0'' = Str ''2.0.0''"
    by (simp_all add: beforeFirstAt_def betweenAts_def)
  note t = object_declaration_split [where obj = barObject and i = "Str ''other''"
      and v = "Str ''9.9.9''" and decl = "ObjectDecl barObject" and d = exampleDisk
      and p = "exampleBar\<lparr> newestVersion := Null \<rparr>" and d' = otherDisk]
  from t h1 have c1:
    "parsedName (ObjectDecl barObject) = beforeFirstAt (to_string (locator barObject))"
    "parsedExpectedVersion (ObjectDecl barObject) = betweenAts (to_string (locator barObject))"
    "parsedName (ObjectDecl (barObject\<lparr> id' := Str ''other'', version := Str ''9.9.9'' \<rparr>)) =
       parsedName (ObjectDecl barObject)"
    "parsedExpectedVersion (ObjectDecl (barObject\<lparr> id' := Str ''other'', version := Str ''9.9.9'' \<rparr>)) =
       parsedExpectedVersion (ObjectDecl barObject)"
    by blast+
  from t h2 i have c2: "folderOf (ObjectDecl barObject) = ''bar-id''"
    "sameFolder exampleDisk otherDisk ''bar-id'' \<longrightarrow>
       readPlugin exampleDisk (ObjectDecl barObject) = readPlugin otherDisk (ObjectDecl barObject)"
    by simp_all
  from c2(2) s r have r': "readPlugin otherDisk (ObjectDecl barObject) =
      Inr (exampleBar\<lparr> newestVersion := Null \<rparr>)"
    by simp
  show ?thesis
    using h1 h2 r s r' c2(1) by (simp add: c1 l b)
qed

text \<open>
  Claim C5 as stated fails on a locator with a second \<open>@\<close>: the parsed version stops
  at the second \<open>@\<close> and is not the rest of the locator after the first one.
\<close>

theorem object_declaration_two_ats:
  "truthy (locator scopedObject) \<and>
   contains_js (CHR ''@'') (to_string (locator scopedObject)) \<and>
   parsedExpectedVersion (ObjectDecl scopedObject) = Str ''scope/cordova-plugin-foo'' \<and>
   afterFirstAt (to_string (locator scopedObject)) = Str ''scope/cordova-plugin-foo@2.1.0''"
  by (simp add: scopedObject_def contains_js_def parsedExpectedVersion_def afterFirstAt_def
      index_js_def)

section \<open>One row of the table\<close>

lemma processPlugin_eq:
  "processPlugin sv p st =
     (case colorNewest sv (newestVersion p) (installedOf p) of
        Inl e \<Rightarrow> Inl e
      | Inr n' \<Rightarrow>
          (case colorRange sv (expectedVersion p) (installedOf p) of
             Inl e \<Rightarrow> Inl e
           | Inr (e', i') \<Rightarrow>
               Inr (fst st @ [[Plain (displayName p), or_dash e', or_dash i', or_dash n']],
                    snd st @ warningsOf p)))"
  by (simp add: processPlugin_def Let_def installedOf_def displayName_def warningsOf_def
      versionMismatch_def nameMismatch_def versionWarning_def nameWarning_def
      split: sum.splits prod.splits)

lemma processPlugin_Inr:
  assumes "processPlugin sv p st = Inr st'"
  obtains n' e' i' where
    "colorNewest sv (newestVersion p) (installedOf p) = Inr n'"
    "colorRange sv (expectedVersion p) (installedOf p) = Inr (e', i')"
    "st' = (fst st @ [[Plain (displayName p), or_dash e', or_dash i', or_dash n']],
            snd st @ warningsOf p)"
  using assms unfolding processPlugin_eq by (auto split: sum.splits prod.splits)

lemma colorNewest_cases:
  "colorNewest sv n i = Inr c \<Longrightarrow>
     (truthy n \<and> truthy i \<and> gt sv (to_string n) (to_string i) = Inr True \<and> c = Colored GreenBold (to_string n)) \<or>
     (truthy n \<and> truthy i \<and> gt sv (to_string n) (to_string i) = Inr False \<and>
        lt sv (to_string n) (to_string i) = Inr True \<and> c = Colored RedBold (to_string n)) \<or>
     (truthy n \<and> truthy i \<and> gt sv (to_string n) (to_string i) = Inr False \<and>
        lt sv (to_string n) (to_string i) = Inr False \<and> c = Raw n) \<or>
     (\<not> (truthy n \<and> truthy i) \<and> c = Raw n)"
  by (auto simp: colorNewest_def split: if_splits sum.splits bool.splits)






lemma colorNewest_no_installed: "\<not> truthy i \<Longrightarrow> colorNewest sv n i = Inr (Raw n)"
  by (simp add: colorNewest_def)

lemma colorRange_no_installed: "\<not> truthy i \<Longrightarrow> colorRange sv e i = Inr (Raw e, Raw i)"
  by (simp add: colorRange_def)

lemma processPlugin_no_installed:
  "\<not> truthy (installedOf p) \<Longrightarrow>
     processPlugin sv p st =
       Inr (fst st @ [[Plain (displayName p), or_dash (Raw (expectedVersion p)), Plain ''-'',
                       or_dash (Raw (newestVersion p))]],
            snd st @ warningsOf p)"
  unfolding processPlugin_eq
  by (simp add: colorNewest_no_installed colorRange_no_installed)

lemma colorNewest_succeeds:
  "(\<exists>c. colorNewest sv n i = Inr c) =
     (if truthy n \<and> truthy i
      then answers (gt sv (to_string n) (to_string i)) (lt sv (to_string n) (to_string i))
      else True)"
  by (auto simp: colorNewest_def answers_def isl_def split: sum.splits bool.splits)

lemma colorRange_succeeds:
  "(\<exists>c. colorRange sv e i = Inr c) =
     (if truthy e \<and> truthy i
      then answers (gtr sv (to_string i) (to_string e)) (ltr sv (to_string i) (to_string e))
      else True)"
  by (auto simp: colorRange_def answers_def isl_def split: sum.splits bool.splits)

lemma processPlugin_succeeds: "(\<exists>st'. processPlugin sv p st = Inr st') = comparable sv p"
proof -
  have "(\<exists>st'. processPlugin sv p st = Inr st') =
          ((\<exists>c. colorNewest sv (newestVersion p) (installedOf p) = Inr c) \<and>
           (\<exists>c. colorRange sv (expectedVersion p) (installedOf p) = Inr c))"
    unfolding processPlugin_eq by (auto split: sum.splits prod.splits)
  then show ?thesis
    unfolding colorNewest_succeeds colorRange_succeeds comparable_def .
qed

lemma raised_None: "(raised f s = None) = answers f s"
  by (auto simp: raised_def answers_def isl_def split: sum.splits bool.splits)

lemma comparisonError_None: "(comparisonError sv p = None) = comparable sv p"
  by (auto simp: comparisonError_def comparable_def raised_None [symmetric] split: option.splits)

lemma colorNewest_raises:
  "(colorNewest sv n i = Inl e) =
     ((if truthy n \<and> truthy i
       then raised (gt sv (to_string n) (to_string i)) (lt sv (to_string n) (to_string i))
       else None) = Some e)"
  by (auto simp: colorNewest_def raised_def split: sum.splits bool.splits)

lemma colorRange_raises:
  "(colorRange sv x i = Inl e) =
     ((if truthy x \<and> truthy i
       then raised (gtr sv (to_string i) (to_string x)) (ltr sv (to_string i) (to_string x))
       else None) = Some e)"
  by (auto simp: colorRange_def raised_def split: sum.splits bool.splits)

lemma processPlugin_raises: "(processPlugin sv p st = Inl e) = (comparisonError sv p = Some e)"
proof (cases "colorNewest sv (newestVersion p) (installedOf p)")
  case (Inl e')
  then have "(if truthy (newestVersion p) \<and> truthy (installedOf p)
       then raised (gt sv (to_string (newestVersion p)) (to_string (installedOf p)))
                   (lt sv (to_string (newestVersion p)) (to_string (installedOf p)))
       else None) = Some e'"
    by (simp only: colorNewest_raises [symmetric])
  then have "comparisonError sv p = Some e'"
    by (simp add: comparisonError_def)
  then show ?thesis
    unfolding processPlugin_eq by (simp add: Inl)
next
  case (Inr c)
  then have "\<And>e'. colorNewest sv (newestVersion p) (installedOf p) \<noteq> Inl e'"
    by simp
  then have n: "(if truthy (newestVersion p) \<and> truthy (installedOf p)
       then raised (gt sv (to_string (newestVersion p)) (to_string (installedOf p)))
                   (lt sv (to_string (newestVersion p)) (to_string (installedOf p)))
       else None) = None"
    unfolding colorNewest_raises by (cases "(if truthy (newestVersion p) \<and> truthy (installedOf p)
       then raised (gt sv (to_string (newestVersion p)) (to_string (installedOf p)))
                   (lt sv (to_string (newestVersion p)) (to_string (installedOf p)))
       else None)") auto
  have "(processPlugin sv p st = Inl e) = (colorRange sv (expectedVersion p) (installedOf p) = Inl e)"
    unfolding processPlugin_eq by (auto simp: Inr split: sum.splits prod.splits)
  also have "\<dots> = (comparisonError sv p = Some e)"
    unfolding colorRange_raises comparisonError_def n by simp
  finally show ?thesis .
qed



lemma olderNewest_row:
  "processPlugin semverRef olderNewest ([], []) =
     Inr ([[Plain ''foo'', Plain ''-'', Plain ''10.0.0'', Emph RedBold ''2.0.0'']], [])"
  by code_simp

lemma exampleFoo_row:
  "processPlugin semverRef exampleFoo ([], []) =
     Inr ([[Plain ''foo'', Plain ''1.0.0'', Plain ''1.0.0'', Emph GreenBold ''1.2.0'']], [])"
  by code_simp




text \<open>
  Claim C6. For every plugin whose descriptor file does not exist, the record is read
  without an error and with both installed-version fields \<open>null\<close>; the manifest is
  not consulted (whatever \<open>existsSync\<close> and \<open>require\<close> would answer for it, the
  record is the same); and the row of that record, whatever the registry reported, is
  produced with the single dash in its Installed cell.
\<close>

theorem missing_descriptor:
  assumes "\<not> existsXml d (folderOf decl)"
  shows "\<exists>p. readPlugin d decl = Inr p \<and>
             installedVersionJson p = Null \<and> installedVersionXml p = Null \<and>
             readPlugin (d\<lparr> existsJson := ej, requireVersion := rv \<rparr>) decl = Inr p \<and>
             (\<exists>row. processPlugin sv (p\<lparr> newestVersion := n \<rparr>) st =
                      Inr (fst st @ [row], snd st @ warningsOf p) \<and>
                    installedCell row = Plain ''-'')"
proof -
  let ?p = "\<lparr> pluginName = parsedName decl, pluginFolder = folderOf decl,
             expectedVersion = parsedExpectedVersion decl, installedVersionJson = Null,
             installedVersionXml = Null, newestVersion = Null \<rparr>"
  have r: "readPlugin d decl = Inr ?p"
    using assms by (rule readPlugin_no_descriptor)
  have r': "readPlugin (d\<lparr> existsJson := ej, requireVersion := rv \<rparr>) decl = Inr ?p"
    using assms by (simp add: readPlugin_no_descriptor)
  have i: "\<not> truthy (installedOf (?p\<lparr> newestVersion := n \<rparr>))"
    by (simp add: installedOf_def js_or_def)
  have w: "warningsOf (?p\<lparr> newestVersion := n \<rparr>) = warningsOf ?p"
    by (simp add: warningsOf_def versionMismatch_def nameMismatch_def versionWarning_def
        nameWarning_def)
  have "\<exists>row. processPlugin sv (?p\<lparr> newestVersion := n \<rparr>) st =
                 Inr (fst st @ [row], snd st @ warningsOf ?p) \<and>
               installedCell row = Plain ''-''"
    unfolding processPlugin_no_installed [OF i] w
    by (simp add: installedCell_def)
  with r r' show ?thesis by simp
qed

theorem missing_descriptor_witness:
  "\<not> existsXml exampleDisk (folderOf (StringDecl ''missing@1.0.0'')) \<and>
   readPlugin exampleDisk (StringDecl ''missing@1.0.0'') =
     Inr \<lparr> pluginName = ''missing'', pluginFolder = ''missing'', expectedVersion = Str ''1.0.0'',
           installedVersionJson = Null, installedVersionXml = Null, newestVersion = Null \<rparr> \<and>
   readPlugin (exampleDisk\<lparr> existsJson := (\<lambda>folder. True),
                             requireVersion := (\<lambda>folder. Inl (ParseFailure folder)) \<rparr>)
       (StringDecl ''missing@1.0.0'') =
     Inr \<lparr> pluginName = ''missing'', pluginFolder = ''missing'', expectedVersion = Str ''1.0.0'',
           installedVersionJson = Null, installedVersionXml = Null, newestVersion = Null \<rparr> \<and>
   processPlugin semverRef
       \<lparr> pluginName = ''missing'', pluginFolder = ''missing'', expectedVersion = Str ''1.0.0'',
         installedVersionJson = Null, installedVersionXml = Null, newestVersion = Str ''1.2.0'' \<rparr>
       ([], []) =
     Inr ([[Plain ''missing'', Plain ''1.0.0'', Plain ''-'', Plain ''1.2.0'']], [])"
proof -
  have h: "\<not> existsXml exampleDisk (folderOf (StringDecl ''missing@1.0.0''))"
    by code_simp
  have r: "readPlugin exampleDisk (StringDecl ''missing@1.0.0'') =
     Inr \<lparr> pluginName = ''missing'', pluginFolder = ''missing'', expectedVersion = Str ''1.0.0'',
           installedVersionJson = Null, installedVersionXml = Null, newestVersion = Null \<rparr>"
    by code_simp
  have r': "readPlugin (exampleDisk\<lparr> existsJson := (\<lambda>folder. True),
                             requireVersion := (\<lambda>folder. Inl (ParseFailure folder)) \<rparr>)
       (StringDecl ''missing@1.0.0'') =
     Inr \<lparr> pluginName = ''missing'', pluginFolder = ''missing'', expectedVersion = Str ''1.0.0'',
           installedVersionJson = Null, installedVersionXml = Null, newestVersion = Null \<rparr>"
    by code_simp
  have row: "processPlugin semverRef
       \<lparr> pluginName = ''missing'', pluginFolder = ''missing'', expectedVersion = Str ''1.0.0'',
         installedVersionJson = Null, installedVersionXml = Null, newestVersion = Str ''1.2.0'' \<rparr>
       ([], []) =
     Inr ([[Plain ''missing'', Plain ''1.0.0'', Plain ''-'', Plain ''1.2.0'']], [])"
    by code_simp
  from missing_descriptor [OF h, where ej = "\<lambda>folder. True"
      and rv = "\<lambda>folder. Inl (ParseFailure folder)" and sv = semverRef
      and n = "Str ''1.2.0''" and st = "([], [])"]
  show ?thesis
    by (simp add: h r r' row)
qed



section \<open>Semantic-version precedence is an order\<close>

lemma compareNat_flip: "compareNat b a = - compareNat a b"
  by simp

lemma compareStrings_flip: "compareStrings b a = - compareStrings a b"
  by (induction a b rule: compareStrings.induct) auto

lemma compareIdentifiers_flip: "compareIdentifiers b a = - compareIdentifiers a b"
proof (cases a)
  case (NumericId m)
  then show ?thesis by (cases b) simp_all
next
  case (AlphaId x)
  then show ?thesis
    using compareStrings_flip [of x] by (cases b) simp_all
qed

lemma comparePreLists_flip: "comparePreLists b a = - comparePreLists a b"
proof (induction a b rule: comparePreLists.induct)
  case (4 x xs y ys)
  then show ?case
    using compareIdentifiers_flip [of y x] by simp
qed simp_all

lemma comparePre_flip: "comparePre b a = - comparePre a b"
  using comparePreLists_flip [of b a] by (simp add: comparePre_def)

lemma compareParsed_flip: "compareParsed b a = - compareParsed a b"
proof -
  have 1: "compareNat (major b) (major a) = - compareNat (major a) (major b)"
    and 2: "compareNat (minor b) (minor a) = - compareNat (minor a) (minor b)"
    and 3: "compareNat (patch b) (patch a) = - compareNat (patch a) (patch b)"
    by (rule compareNat_flip)+
  have 4: "comparePre (prerelease b) (prerelease a) = - comparePre (prerelease a) (prerelease b)"
    by (rule comparePre_flip)
  show ?thesis
    unfolding compareParsed_def 1 2 3 4 by simp
qed

lemma precedes_asym:
  assumes "precedes a b"
  shows "\<not> precedes b a"
proof -
  from assms obtain va vb where
    p: "parseVersion a = Some va" "parseVersion b = Some vb" "compareParsed va vb < 0"
    by (auto simp: precedes_def split: option.splits)
  have "compareParsed vb va = - compareParsed va vb"
    by (rule compareParsed_flip)
  with p(3) have "\<not> compareParsed vb va < 0" by simp
  then show ?thesis by (simp add: precedes_def p(1,2))
qed

section \<open>The emphasis of the Newest and Expected cells\<close>

text \<open>
  Claim C9. For every record whose latest and installed versions are both present and
  whose comparisons answer, the row is produced, and its Newest cell carries the
  newer-available emphasis exactly when the package's \<open>gt\<close> says the latest version
  is above the installed one, and the unexpected-downgrade emphasis exactly when \<open>gt\<close>
  says no and \<open>lt\<close> says the latest version is below the installed one. When the
  package answers for the two versions by semantic-version precedence, that is: the
  newer-available emphasis exactly when the installed version precedes the latest one,
  and the unexpected-downgrade emphasis exactly when the latest version precedes the
  installed one. The precedence is not the order of strings: \<open>2.0.0\<close> against an
  installed \<open>10.0.0\<close> is a downgrade.
\<close>

theorem newest_emphasis:
  assumes "truthy (newestVersion p)" and "truthy (installedOf p)" and "comparable sv p"
  shows "\<exists>row. processPlugin sv p st = Inr (fst st @ [row], snd st @ warningsOf p) \<and>
          (newestCell row = Emph GreenBold (to_string (newestVersion p))) =
            (gt sv (to_string (newestVersion p)) (to_string (installedOf p)) = Inr True) \<and>
          (newestCell row = Emph RedBold (to_string (newestVersion p))) =
            (gt sv (to_string (newestVersion p)) (to_string (installedOf p)) = Inr False \<and>
             lt sv (to_string (newestVersion p)) (to_string (installedOf p)) = Inr True) \<and>
          (followsPrecedence sv (to_string (newestVersion p)) (to_string (installedOf p)) \<longrightarrow>
             (newestCell row = Emph GreenBold (to_string (newestVersion p))) =
               precedes (to_string (installedOf p)) (to_string (newestVersion p)) \<and>
             (newestCell row = Emph RedBold (to_string (newestVersion p))) =
               precedes (to_string (newestVersion p)) (to_string (installedOf p)))"
proof -
  from assms(3) obtain st' where st': "processPlugin sv p st = Inr st'"
    using processPlugin_succeeds [of sv p st] by blast
  then obtain n' e' i' where
    c: "colorNewest sv (newestVersion p) (installedOf p) = Inr n'" and
    eq: "st' = (fst st @ [[Plain (displayName p), or_dash e', or_dash i', or_dash n']],
                 snd st @ warningsOf p)"
    by (rule processPlugin_Inr)
  let ?row = "[Plain (displayName p), or_dash e', or_dash i', or_dash n']"
  have cell: "newestCell ?row = or_dash n'"
    by (simp add: newestCell_def)
  have g: "(or_dash n' = Emph GreenBold (to_string (newestVersion p))) =
            (gt sv (to_string (newestVersion p)) (to_string (installedOf p)) = Inr True)"
    and r: "(or_dash n' = Emph RedBold (to_string (newestVersion p))) =
            (gt sv (to_string (newestVersion p)) (to_string (installedOf p)) = Inr False \<and>
             lt sv (to_string (newestVersion p)) (to_string (installedOf p)) = Inr True)"
    using colorNewest_cases [OF c] assms(1,2) by auto
  have f: "(or_dash n' = Emph GreenBold (to_string (newestVersion p))) =
               precedes (to_string (installedOf p)) (to_string (newestVersion p)) \<and>
           (or_dash n' = Emph RedBold (to_string (newestVersion p))) =
               precedes (to_string (newestVersion p)) (to_string (installedOf p))"
    if "followsPrecedence sv (to_string (newestVersion p)) (to_string (installedOf p))"
    using that precedes_asym [of "to_string (newestVersion p)" "to_string (installedOf p)"]
    unfolding g r by (auto simp: followsPrecedence_def)
  have row: "processPlugin sv p st = Inr (fst st @ [?row], snd st @ warningsOf p)"
    using st' eq by simp
  show ?thesis
  proof (rule exI [of _ ?row], intro conjI)
    show "processPlugin sv p st = Inr (fst st @ [?row], snd st @ warningsOf p)"
      by (rule row)
    show "(newestCell ?row = Emph GreenBold (to_string (newestVersion p))) =
            (gt sv (to_string (newestVersion p)) (to_string (installedOf p)) = Inr True)"
      unfolding cell by (rule g)
    show "(newestCell ?row = Emph RedBold (to_string (newestVersion p))) =
            (gt sv (to_string (newestVersion p)) (to_string (installedOf p)) = Inr False \<and>
             lt sv (to_string (newestVersion p)) (to_string (installedOf p)) = Inr True)"
      unfolding cell by (rule r)
    show "followsPrecedence sv (to_string (newestVersion p)) (to_string (installedOf p)) \<longrightarrow>
             (newestCell ?row = Emph GreenBold (to_string (newestVersion p))) =
               precedes (to_string (installedOf p)) (to_string (newestVersion p)) \<and>
             (newestCell ?row = Emph RedBold (to_string (newestVersion p))) =
               precedes (to_string (newestVersion p)) (to_string (installedOf p))"
      unfolding cell using f by blast
  qed
qed

theorem newest_emphasis_witness:
  "truthy (newestVersion olderNewest) \<and> truthy (installedOf olderNewest) \<and>
   comparable semverRef olderNewest \<and>
   followsPrecedence semverRef ''2.0.0'' ''10.0.0'' \<and>
   precedes ''2.0.0'' ''10.0.0'' \<and> \<not> precedes ''10.0.0'' ''2.0.0'' \<and>
   0 < compareStrings ''2.0.0'' ''10.0.0'' \<and>
   processPlugin semverRef olderNewest ([], []) =
     Inr ([[Plain ''foo'', Plain ''-'', Plain ''10.0.0'', Emph RedBold ''2.0.0'']], []) \<and>
   truthy (newestVersion exampleFoo) \<and> truthy (installedOf exampleFoo) \<and>
   comparable semverRef exampleFoo \<and>
   followsPrecedence semverRef ''1.2.0'' ''1.0.0'' \<and>
   precedes ''1.0.0'' ''1.2.0'' \<and>
   processPlugin semverRef exampleFoo ([], []) =
     Inr ([[Plain ''foo'', Plain ''1.0.0'', Plain ''1.0.0'', Emph GreenBold ''1.2.0'']], [])"
proof -
  have t: "truthy (newestVersion olderNewest)" "truthy (installedOf olderNewest)"
    "comparable semverRef olderNewest"
    by code_simp+
  have t2: "truthy (newestVersion exampleFoo)" "truthy (installedOf exampleFoo)"
    "comparable semverRef exampleFoo"
    by code_simp+
  have n: "to_string (newestVersion olderNewest) = ''2.0.0''"
    and i: "to_string (installedOf olderNewest) = ''10.0.0''"
    and n2: "to_string (newestVersion exampleFoo) = ''1.2.0''"
    and i2: "to_string (installedOf exampleFoo) = ''1.0.0''"
    by code_simp+
  have f: "followsPrecedence semverRef ''2.0.0'' ''10.0.0''"
    and f2: "followsPrecedence semverRef ''1.2.0'' ''1.0.0''"
    by code_simp+
  have pr: "precedes ''2.0.0'' ''10.0.0''" "\<not> precedes ''10.0.0'' ''2.0.0''"
    "precedes ''1.0.0'' ''1.2.0''" "0 < compareStrings ''2.0.0'' ''10.0.0''"
    by code_simp+
  from newest_emphasis [OF t, of "([], [])"] f pr(1)
  obtain row where "processPlugin semverRef olderNewest ([], []) = Inr ([] @ [row], [] @ warningsOf olderNewest)"
    "newestCell row = Emph RedBold ''2.0.0''"
    unfolding n i by auto
  moreover from newest_emphasis [OF t2, of "([], [])"] f2 pr(3)
  obtain row2 where "processPlugin semverRef exampleFoo ([], []) = Inr ([] @ [row2], [] @ warningsOf exampleFoo)"
    "newestCell row2 = Emph GreenBold ''1.2.0''"
    unfolding n2 i2 by auto
  ultimately show ?thesis
    using t t2 f f2 pr by (simp add: olderNewest_row exampleFoo_row)
qed



section \<open>The whole table\<close>

lemma forEachPlugin_succeeds:
  "(\<exists>st'. forEachPlugin sv ps st = Inr st') = (\<forall>p\<in>set ps. comparable sv p)"
proof (induction ps arbitrary: st)
  case Nil
  then show ?case by simp
next
  case (Cons p ps)
  show ?case
  proof (cases "processPlugin sv p st")
    case (Inl e)
    then have "\<not> comparable sv p"
      using processPlugin_succeeds [of sv p st] by simp
    then show ?thesis using Inl by simp
  next
    case (Inr st1)
    then have "comparable sv p"
      using processPlugin_succeeds [of sv p st] by auto
    then show ?thesis using Inr Cons.IH [of st1] by simp
  qed
qed

lemma forEachPlugin_result:
  "forEachPlugin sv ps st = Inr st' \<Longrightarrow>
     snd st' = snd st @ concat (map warningsOf ps) \<and>
     map nameCell (fst st') = map nameCell (fst st) @ map (\<lambda>p. Plain (displayName p)) ps \<and>
     length (fst st') = length (fst st) + length ps"
proof (induction ps arbitrary: st)
  case Nil
  then show ?case by simp
next
  case (Cons p ps)
  from Cons.prems obtain st1 where
    1: "processPlugin sv p st = Inr st1" and 2: "forEachPlugin sv ps st1 = Inr st'"
    by (auto split: sum.splits)
  from 1 obtain n' e' i' where
    st1: "st1 = (fst st @ [[Plain (displayName p), or_dash e', or_dash i', or_dash n']],
                 snd st @ warningsOf p)"
    by (rule processPlugin_Inr)
  from Cons.IH [OF 2] show ?case
    by (simp add: st1 nameCell_def)
qed

lemma postProcess_succeeds:
  "(\<exists>table. snd (postProcessPluginsInfo sv infos) = Inr table) = (\<forall>p\<in>set infos. comparable sv p)"
proof -
  have "(\<exists>table. snd (postProcessPluginsInfo sv infos) = Inr table) =
          (\<exists>st'. forEachPlugin sv infos ([], []) = Inr st')"
    by (auto simp: postProcessPluginsInfo_def split: sum.splits prod.splits)
  then show ?thesis
    by (simp only: forEachPlugin_succeeds)
qed

lemma postProcess_result:
  assumes "snd (postProcessPluginsInfo sv infos) = Inr table"
  shows "fst (postProcessPluginsInfo sv infos) =
           Plain [] # map (Emph YellowBold) (concat (map warningsOf infos)) @ notices"
    and "map nameCell table = map (\<lambda>p. Plain (displayName p)) infos"
    and "length table = length infos"
proof -
  from assms obtain w where f: "forEachPlugin sv infos ([], []) = Inr (table, w)"
    by (auto simp: postProcessPluginsInfo_def split: sum.splits prod.splits)
  from forEachPlugin_result [OF f]
  show "fst (postProcessPluginsInfo sv infos) =
           Plain [] # map (Emph YellowBold) (concat (map warningsOf infos)) @ notices"
    and "map nameCell table = map (\<lambda>p. Plain (displayName p)) infos"
    and "length table = length infos"
    by (simp_all add: postProcessPluginsInfo_def f)
qed

lemma postProcess_raises:
  "snd (postProcessPluginsInfo sv infos) = Inl e \<Longrightarrow> fst (postProcessPluginsInfo sv infos) = [Plain []]"
  by (auto simp: postProcessPluginsInfo_def split: sum.splits prod.splits)





lemma forEachPlugin_raises:
  "(forEachPlugin sv ps st = Inl e) = (firstComparisonError sv ps = Some e)"
proof (induction ps arbitrary: st)
  case Nil
  then show ?case by simp
next
  case (Cons p ps)
  show ?case
  proof (cases "processPlugin sv p st")
    case (Inl e')
    then have "comparisonError sv p = Some e'"
      by (simp add: processPlugin_raises)
    then show ?thesis using Inl by simp
  next
    case (Inr st1)
    have "comparisonError sv p \<noteq> Some e'" for e'
      using Inr processPlugin_raises [of sv p st e'] by simp
    then have "comparisonError sv p = None"
      by (cases "comparisonError sv p") auto
    then show ?thesis using Inr Cons.IH [of st1] by simp
  qed
qed

lemma firstComparisonError_None:
  "(firstComparisonError sv ps = None) = (\<forall>p\<in>set ps. comparable sv p)"
  by (induction ps) (auto simp: comparisonError_None [symmetric] split: option.splits)

lemma postProcess_error:
  assumes "firstComparisonError sv infos = Some e"
  shows "postProcessPluginsInfo sv infos = ([Plain []], Inl e)"
proof -
  have "forEachPlugin sv infos ([], []) = Inl e"
    using assms by (simp add: forEachPlugin_raises)
  then show ?thesis by (simp add: postProcessPluginsInfo_def)
qed

lemma postProcess_table:
  assumes "firstComparisonError sv infos = None"
  shows "\<exists>table. postProcessPluginsInfo sv infos =
            (Plain [] # map (Emph YellowBold) (concat (map warningsOf infos)) @ notices, Inr table) \<and>
          length table = length infos \<and>
          map nameCell table = map (\<lambda>p. Plain (displayName p)) infos"
proof -
  have "\<forall>p\<in>set infos. comparable sv p"
    using assms by (simp only: firstComparisonError_None)
  then obtain table where t: "snd (postProcessPluginsInfo sv infos) = Inr table"
    using postProcess_succeeds [of sv infos] by blast
  from postProcess_result [OF t] t show ?thesis
    by (metis prod.collapse)
qed

lemma main_reports:
  "readPluginInfoFromDisk d decls = Inr inventory \<Longrightarrow>
   getNewestVersionsInfoFromNpm reg inventory = Inr newestVersionsArr \<Longrightarrow>
   augment newestVersionsArr inventory = Inr infos \<Longrightarrow>
     main d reg sv decls = Inr (report sv infos)"
  by (simp add: main_def)

text \<open>
  Claim C3, as amended. The reconciler has one failure mode: a comparison of the semver
  package that raises. For every input sequence of records, \<open>postProcessPluginsInfo\<close>
  completes normally exactly when every comparison it asks for answers; it then returns a
  table with one row per record, having written the warnings in order and the notices,
  and the table is printed. Otherwise it raises the error of the first comparison that
  raises, having written the leading empty line only, and the \<open>catch\<close> handler of
  \<open>main\<close> prints that error and its stack trace; no table is printed.
\<close>

theorem reconciler_completes_iff_comparable:
  "(firstComparisonError sv infos = None) = (\<forall>p\<in>set infos. comparable sv p) \<and>
   (\<exists>table. snd (postProcessPluginsInfo sv infos) = Inr table) = (\<forall>p\<in>set infos. comparable sv p) \<and>
   (firstComparisonError sv infos = None \<longrightarrow>
      (\<exists>table. postProcessPluginsInfo sv infos =
                 (Plain [] # map (Emph YellowBold) (concat (map warningsOf infos)) @ notices,
                  Inr table) \<and>
               length table = length infos \<and>
               report sv infos =
                 map Log (Plain [] # map (Emph YellowBold) (concat (map warningsOf infos)) @ notices) @
                 [Log (Plain []), LogTable table])) \<and>
   (firstComparisonError sv infos = Some e \<longrightarrow>
      postProcessPluginsInfo sv infos = ([Plain []], Inl e) \<and>
      report sv infos = [Log (Plain []), Log (Plain []), LogError e, LogStack e] \<and>
      \<not> list_ex isTable (report sv infos)) \<and>
   (readPluginInfoFromDisk d decls = Inr inventory \<and>
    getNewestVersionsInfoFromNpm reg inventory = Inr newestVersionsArr \<and>
    augment newestVersionsArr inventory = Inr infos \<longrightarrow>
      main d reg sv decls = Inr (report sv infos))"
proof -
  have 1: "(firstComparisonError sv infos = None) = (\<forall>p\<in>set infos. comparable sv p)"
    by (rule firstComparisonError_None)
  have 2: "(\<exists>table. snd (postProcessPluginsInfo sv infos) = Inr table) = (\<forall>p\<in>set infos. comparable sv p)"
    by (rule postProcess_succeeds)
  have 3: "\<exists>table. postProcessPluginsInfo sv infos =
                 (Plain [] # map (Emph YellowBold) (concat (map warningsOf infos)) @ notices,
                  Inr table) \<and>
               length table = length infos \<and>
               report sv infos =
                 map Log (Plain [] # map (Emph YellowBold) (concat (map warningsOf infos)) @ notices) @
                 [Log (Plain []), LogTable table]"
    if "firstComparisonError sv infos = None"
  proof -
    from postProcess_table [OF that] obtain table where
      t: "postProcessPluginsInfo sv infos =
            (Plain [] # map (Emph YellowBold) (concat (map warningsOf infos)) @ notices, Inr table)"
        "length table = length infos"
      by blast
    have "report sv infos =
            map Log (Plain [] # map (Emph YellowBold) (concat (map warningsOf infos)) @ notices) @
            [Log (Plain []), LogTable table]"
      by (simp add: report_def t(1))
    with t show ?thesis by blast
  qed
  have 4: "postProcessPluginsInfo sv infos = ([Plain []], Inl e) \<and>
      report sv infos = [Log (Plain []), Log (Plain []), LogError e, LogStack e] \<and>
      \<not> list_ex isTable (report sv infos)"
    if "firstComparisonError sv infos = Some e"
    using postProcess_error [OF that] by (simp add: report_def onRejected_def)
  have 5: "readPluginInfoFromDisk d decls = Inr inventory \<and>
    getNewestVersionsInfoFromNpm reg inventory = Inr newestVersionsArr \<and>
    augment newestVersionsArr inventory = Inr infos \<longrightarrow>
      main d reg sv decls = Inr (report sv infos)"
    using main_reports [of d decls inventory reg newestVersionsArr infos sv] by blast
  show ?thesis using 1 2 3 4 5 by blast
qed

theorem reconciler_completes_iff_comparable_witness:
  "firstComparisonError semverRef [exampleFoo, exampleBar] = None \<and>
   comparable semverRef exampleFoo \<and> comparable semverRef exampleBar \<and>
   postProcessPluginsInfo semverRef [exampleFoo, exampleBar] =
     (Plain [] # map (Emph YellowBold) [versionWarning exampleBar, nameWarning exampleBar] @ notices,
      Inr [[Plain ''foo'', Plain ''1.0.0'', Plain ''1.0.0'', Emph GreenBold ''1.2.0''],
           [Plain ''bar (bar-id)'', Plain ''2.0.0'', Emph RedBold ''2.5.0'', Plain ''2.5.0'']]) \<and>
   firstComparisonError semverRef [exampleBar, twoPartVersion] = Some (InvalidVersion ''1.0'') \<and>
   postProcessPluginsInfo semverRef [exampleBar, twoPartVersion] =
     ([Plain []], Inl (InvalidVersion ''1.0'')) \<and>
   report semverRef [exampleBar, twoPartVersion] =
     [Log (Plain []), Log (Plain []), LogError (InvalidVersion ''1.0''),
      LogStack (InvalidVersion ''1.0'')] \<and>
   main staleDisk exampleRegistry semverRef [StringDecl ''foo@1.0.0''] =
     Inr [Log (Plain []), Log (Plain []), LogError (InvalidVersion ''1.0''),
          LogStack (InvalidVersion ''1.0'')]"
proof -
  have n: "firstComparisonError semverRef [exampleFoo, exampleBar] = None"
    by code_simp
  have s: "firstComparisonError semverRef [exampleBar, twoPartVersion] = Some (InvalidVersion ''1.0'')"
    by code_simp
  have ok: "postProcessPluginsInfo semverRef [exampleFoo, exampleBar] =
     (Plain [] # map (Emph YellowBold) [versionWarning exampleBar, nameWarning exampleBar] @ notices,
      Inr [[Plain ''foo'', Plain ''1.0.0'', Plain ''1.0.0'', Emph GreenBold ''1.2.0''],
           [Plain ''bar (bar-id)'', Plain ''2.0.0'', Emph RedBold ''2.5.0'', Plain ''2.5.0'']])"
    by code_simp
  have m: "main staleDisk exampleRegistry semverRef [StringDecl ''foo@1.0.0''] =
     Inr [Log (Plain []), Log (Plain []), LogError (InvalidVersion ''1.0''),
          LogStack (InvalidVersion ''1.0'')]"
    by code_simp
  note t1 = reconciler_completes_iff_comparable [where sv = semverRef
      and infos = "[exampleFoo, exampleBar]"]
  note t2 = reconciler_completes_iff_comparable [where sv = semverRef
      and infos = "[exampleBar, twoPartVersion]" and e = "InvalidVersion ''1.0''"]
  from t1 n have c: "\<forall>p\<in>set [exampleFoo, exampleBar]. comparable semverRef p"
    by blast
  from t2 s have r: "postProcessPluginsInfo semverRef [exampleBar, twoPartVersion] =
       ([Plain []], Inl (InvalidVersion ''1.0''))"
    "report semverRef [exampleBar, twoPartVersion] =
       [Log (Plain []), Log (Plain []), LogError (InvalidVersion ''1.0''),
        LogStack (InvalidVersion ''1.0'')]"
    by blast+
  from c have "comparable semverRef exampleFoo" "comparable semverRef exampleBar"
    by simp_all
  then show ?thesis using n s ok m r by simp
qed

text \<open>
  Claim C3 as stated fails: a record with an installed version \<open>1.0\<close> and a latest
  version \<open>1.2.0\<close> makes the reconciler raise, since \<open>1.0\<close> is not a version for
  the semver package.
\<close>

theorem reconciler_raises_on_invalid_version:
  "postProcessPluginsInfo semverRef [twoPartVersion] = ([Plain []], Inl (InvalidVersion ''1.0''))"
  by code_simp



section \<open>The registry join\<close>

lemma promiseAll_fulfilled:
  "\<forall>r\<in>set rs. \<not> isl r \<Longrightarrow> promiseAll rs = Inr (map projr rs)"
proof (induction rs)
  case Nil
  then show ?case by simp
next
  case (Cons r rs)
  then show ?case by (cases r) auto
qed

lemma promiseAll_rejected:
  "\<exists>r\<in>set rs. isl r \<Longrightarrow> \<exists>e. promiseAll rs = Inl e \<and> Inl e \<in> set rs"
proof (induction rs)
  case Nil
  then show ?case by simp
next
  case (Cons r rs)
  show ?case
  proof (cases r)
    case (Inl e)
    then show ?thesis by auto
  next
    case (Inr v)
    with Cons.prems have "\<exists>r\<in>set rs. isl r" by auto
    from Cons.IH [OF this] Inr show ?thesis by auto
  qed
qed

lemma getNewest_fulfilled:
  assumes "\<forall>p\<in>set infos. \<not> isl (reg (pluginName p))"
  shows "getNewestVersionsInfoFromNpm reg infos = Inr (map (\<lambda>p. projr (reg (pluginName p))) infos)"
proof -
  have "\<forall>r\<in>set (map (\<lambda>pluginEntry. reg (pluginName pluginEntry)) infos). \<not> isl r"
    using assms by simp
  from promiseAll_fulfilled [OF this] show ?thesis
    by (simp add: getNewestVersionsInfoFromNpm_def comp_def)
qed

lemma getNewest_rejected:
  assumes "\<exists>p\<in>set infos. isl (reg (pluginName p))"
  shows "\<exists>e. getNewestVersionsInfoFromNpm reg infos = Inl e"
proof -
  have "\<exists>r\<in>set (map (\<lambda>pluginEntry. reg (pluginName pluginEntry)) infos). isl r"
    using assms by simp
  from promiseAll_rejected [OF this] show ?thesis
    by (auto simp: getNewestVersionsInfoFromNpm_def)
qed

lemma augmentFrom_range:
  "n \<le> length infos \<Longrightarrow> k \<le> n \<Longrightarrow>
     \<exists>r. augmentFrom vs [k..<n] infos = Inr r \<and> length r = length infos \<and>
         (\<forall>i<length infos.
            r ! i = (if k \<le> i \<and> i < n then (infos ! i)\<lparr> newestVersion := vs ! i \<rparr> else infos ! i))"
proof (induction "n - k" arbitrary: k infos)
  case 0
  then have "[k..<n] = []" by simp
  then show ?case using 0 by auto
next
  case (Suc m)
  then have kn: "k < n" by simp
  then have upt: "[k..<n] = k # [Suc k..<n]" by (simp add: upt_conv_Cons)
  let ?infos = "infos[k := (infos ! k)\<lparr> newestVersion := vs ! k \<rparr>]"
  have s: "setNewest vs k infos = Inr ?infos"
    using kn Suc.prems by (simp add: setNewest_def)
  have "m = n - Suc k" using Suc.hyps(2) by simp
  moreover have "n \<le> length ?infos" using Suc.prems by simp
  moreover have "Suc k \<le> n" using kn by simp
  ultimately obtain r where r: "augmentFrom vs [Suc k..<n] ?infos = Inr r"
    "length r = length ?infos"
    "\<forall>i<length ?infos.
        r ! i = (if Suc k \<le> i \<and> i < n then (?infos ! i)\<lparr> newestVersion := vs ! i \<rparr> else ?infos ! i)"
    using Suc.hyps(1) [of "Suc k" ?infos] by blast
  have "augmentFrom vs [k..<n] infos = Inr r"
    by (simp add: upt s r(1))
  moreover have "length r = length infos" using r(2) by simp
  moreover have "\<forall>i<length infos.
      r ! i = (if k \<le> i \<and> i < n then (infos ! i)\<lparr> newestVersion := vs ! i \<rparr> else infos ! i)"
  proof (intro allI impI)
    fix i assume i: "i < length infos"
    then have "r ! i = (if Suc k \<le> i \<and> i < n then (?infos ! i)\<lparr> newestVersion := vs ! i \<rparr> else ?infos ! i)"
      using r(3) by simp
    then show "r ! i = (if k \<le> i \<and> i < n then (infos ! i)\<lparr> newestVersion := vs ! i \<rparr> else infos ! i)"
      using i kn by (cases "i = k") auto
  qed
  ultimately show ?case by blast
qed

lemma augment_same_length:
  assumes "length vs = length infos"
  shows "\<exists>r. augment vs infos = Inr r \<and> length r = length infos \<and>
             (\<forall>i<length infos. r ! i = (infos ! i)\<lparr> newestVersion := vs ! i \<rparr>)"
  using augmentFrom_range [of "length vs" infos 0 vs] assms
  by (simp add: augment_def)

lemma forEachDecl_length:
  "forEachDecl d decls acc = Inr r \<Longrightarrow> length r = length acc + length decls"
  by (induction decls arbitrary: acc) (auto split: sum.splits)

lemma readPluginInfoFromDisk_length:
  "readPluginInfoFromDisk d decls = Inr infos \<Longrightarrow> length infos = length decls"
  using forEachDecl_length [of d decls "[]" infos] by (simp add: readPluginInfoFromDisk_def)

lemma onRejected_no_table: "\<not> list_ex isTable (onRejected e)"
  by (simp add: onRejected_def)

text \<open>
  Claim C2. Let the inventory of \<open>N\<close> declarations be read. If any lookup fails,
  \<open>main\<close> writes what the \<open>catch\<close> handler writes for some lookup error and
  nothing else: no table, and nothing that depends on the reconciler. If every lookup
  succeeds, the reconciler runs on \<open>N\<close> records, which are the records read, in
  their order, each with its newest version set to what the registry answered for its
  name.
\<close>

theorem registry_join_all_or_fail:
  assumes "readPluginInfoFromDisk d decls = Inr infos"
  shows "length infos = length decls \<and>
         ((\<exists>p\<in>set infos. isl (reg (pluginName p))) \<longrightarrow>
            (\<exists>e. main d reg sv decls = Inr (onRejected e) \<and> \<not> list_ex isTable (onRejected e)) \<and>
            main d reg sv' decls = main d reg sv decls) \<and>
         ((\<forall>p\<in>set infos. \<not> isl (reg (pluginName p))) \<longrightarrow>
            (\<exists>infos'. main d reg sv decls = Inr (report sv infos') \<and>
                length infos' = length infos \<and>
                (\<forall>i<length infos.
                   infos' ! i = (infos ! i)\<lparr> newestVersion := projr (reg (pluginName (infos ! i))) \<rparr>)))"
proof -
  have 1: "length infos = length decls"
    using assms by (rule readPluginInfoFromDisk_length)
  have 2: "(\<exists>e. main d reg sv decls = Inr (onRejected e) \<and> \<not> list_ex isTable (onRejected e)) \<and>
            main d reg sv' decls = main d reg sv decls"
    if "\<exists>p\<in>set infos. isl (reg (pluginName p))"
  proof -
    from getNewest_rejected [OF that] obtain e where
      e: "getNewestVersionsInfoFromNpm reg infos = Inl e" by blast
    then show ?thesis
      by (auto simp: main_def assms onRejected_no_table)
  qed
  have 3: "\<exists>infos'. main d reg sv decls = Inr (report sv infos') \<and>
                length infos' = length infos \<and>
                (\<forall>i<length infos.
                   infos' ! i = (infos ! i)\<lparr> newestVersion := projr (reg (pluginName (infos ! i))) \<rparr>)"
    if "\<forall>p\<in>set infos. \<not> isl (reg (pluginName p))"
  proof -
    let ?vs = "map (\<lambda>p. projr (reg (pluginName p))) infos"
    have g: "getNewestVersionsInfoFromNpm reg infos = Inr ?vs"
      using that by (rule getNewest_fulfilled)
    have "length ?vs = length infos" by simp
    from augment_same_length [OF this] obtain r where
      r: "augment ?vs infos = Inr r" "length r = length infos"
         "\<forall>i<length infos. r ! i = (infos ! i)\<lparr> newestVersion := ?vs ! i \<rparr>"
      by blast
    have "main d reg sv decls = Inr (report sv r)"
      by (simp add: main_def assms g r(1))
    moreover have "\<forall>i<length infos.
        r ! i = (infos ! i)\<lparr> newestVersion := projr (reg (pluginName (infos ! i))) \<rparr>"
      using r(3) by simp
    ultimately show ?thesis using r(2) by blast
  qed
  show ?thesis using 1 2 3 by blast
qed

theorem registry_join_all_or_fail_witness:
  "readPluginInfoFromDisk exampleDisk examplePlugins =
     Inr [exampleFoo\<lparr> newestVersion := Null \<rparr>, exampleBar\<lparr> newestVersion := Null \<rparr>] \<and>
   main exampleDisk exampleRegistry semverRef examplePlugins =
     Inr (report semverRef [exampleFoo, exampleBar]) \<and>
   main exampleDisk failingRegistry semverRef examplePlugins =
     Inr (onRejected (LookupFailure ''bar''))"
proof -
  have r: "readPluginInfoFromDisk exampleDisk examplePlugins =
     Inr [exampleFoo\<lparr> newestVersion := Null \<rparr>, exampleBar\<lparr> newestVersion := Null \<rparr>]"
    by code_simp
  have ok: "\<forall>p\<in>set [exampleFoo\<lparr> newestVersion := Null \<rparr>, exampleBar\<lparr> newestVersion := Null \<rparr>].
              \<not> isl (exampleRegistry (pluginName p))"
    by (simp add: exampleFoo_def exampleBar_def exampleRegistry_def)
  have ko: "\<exists>p\<in>set [exampleFoo\<lparr> newestVersion := Null \<rparr>, exampleBar\<lparr> newestVersion := Null \<rparr>].
              isl (failingRegistry (pluginName p))"
    by (simp add: exampleFoo_def exampleBar_def failingRegistry_def)
  have m1: "main exampleDisk exampleRegistry semverRef examplePlugins =
     Inr (report semverRef [exampleFoo, exampleBar])"
    by code_simp
  have m2: "main exampleDisk failingRegistry semverRef examplePlugins =
     Inr (onRejected (LookupFailure ''bar''))"
    by code_simp
  note t1 = registry_join_all_or_fail [OF r, where reg = exampleRegistry and sv = semverRef
      and sv' = semverRef]
  note t2 = registry_join_all_or_fail [OF r, where reg = failingRegistry and sv = semverRef
      and sv' = semverRef]
  from t1 ok have "\<exists>infos'. main exampleDisk exampleRegistry semverRef examplePlugins =
      Inr (report semverRef infos')"
    by blast
  moreover from t2 ko have "\<exists>e. main exampleDisk failingRegistry semverRef examplePlugins =
      Inr (onRejected e)"
    by blast
  ultimately show ?thesis using r m1 m2 by simp
qed

end
